theory Spec2Isabelle
  imports Main
begin

section \<open>Data model (app/models.py)\<close>

text \<open>
  A \<open>datetime\<close> is modelled by its position on the time line (an integer count of
  microseconds); only the order of timestamps matters below. The reading of
  \<open>datetime.utcnow()\<close> is an input of every operation that takes one (\<open>now\<close>).
\<close>

type_synonym timestamp = int

text \<open>Persistent rows. A persisted row always carries the id the datastore gave it.\<close>

record User =
  u_id :: int
  u_name :: string
  u_email :: string
  u_is_active :: bool
  u_created_at :: timestamp

record Task =
  t_id :: int
  t_title :: string
  t_description :: string
  t_completed :: bool
  t_user_id :: int
  t_created_at :: timestamp
  t_updated_at :: "timestamp option"

text \<open>Request schemas.\<close>

record UserCreate =
  uc_name :: string
  uc_email :: string

record TaskCreate =
  tc_title :: string
  tc_description :: string
  tc_user_id :: int

text \<open>
  Every field of \<open>TaskUpdate\<close> is \<open>Optional[...]\<close> with default \<open>None\<close>, and
  \<open>model_dump(exclude_unset=True)\<close> keeps exactly the fields the caller passed, whatever
  their value: a field is either unset, or supplied with a value that may itself be
  \<open>None\<close>.
\<close>

datatype 'a field = Unset | Supplied "'a option"

record TaskUpdate =
  tu_title :: "string field"
  tu_description :: "string field"
  tu_completed :: "bool field"

datatype error = IntegrityError | RuntimeError string

section \<open>The datastore\<close>

text \<open>The two tables, rows in insertion order.\<close>

record database =
  users :: "User list"
  tasks :: "Task list"

definition empty_db :: database where
  "empty_db = \<lparr>users = [], tasks = []\<rparr>"

text \<open>
  Modelled from the spec: app/database.py (the engine and \<open>get_session\<close>) is not part of
  the sources; the spec says ids are unique and server-assigned on creation. The model
  hands out one more than the largest id of the table, starting at 1.
\<close>

definition next_id :: "int list \<Rightarrow> int" where
  "next_id ids = fold max ids 0 + 1"

text \<open>\<open>session.get(User, k)\<close> and \<open>session.get(Task, k)\<close>: lookup by primary key.\<close>

definition session_get_user :: "database \<Rightarrow> int \<Rightarrow> User option" where
  "session_get_user s k = find (\<lambda>u. u_id u = k) (users s)"

definition session_get_task :: "database \<Rightarrow> int \<Rightarrow> Task option" where
  "session_get_task s k = find (\<lambda>t. t_id t = k) (tasks s)"

text \<open>
  Committing a new User row: the datastore assigns the id and enforces the UNIQUE
  constraint on \<open>email\<close>; a violation raises and persists nothing.
\<close>

definition insert_user :: "string \<Rightarrow> string \<Rightarrow> timestamp \<Rightarrow> database \<Rightarrow> error + (User \<times> database)" where
  "insert_user name email now s =
     (if email \<in> set (map u_email (users s)) then Inl IntegrityError
      else
        (let user = \<lparr>u_id = next_id (map u_id (users s)), u_name = name, u_email = email,
                      u_is_active = True, u_created_at = now\<rparr>
         in Inr (user, s\<lparr>users := users s @ [user]\<rparr>)))"

text \<open>Committing a new Task row: defaults \<open>completed=False\<close>, \<open>updated_at=None\<close>.\<close>

definition insert_task :: "string \<Rightarrow> string \<Rightarrow> int \<Rightarrow> timestamp \<Rightarrow> database \<Rightarrow> Task \<times> database" where
  "insert_task title description user_id now s =
     (let task = \<lparr>t_id = next_id (map t_id (tasks s)), t_title = title,
                  t_description = description, t_completed = False, t_user_id = user_id,
                  t_created_at = now, t_updated_at = None\<rparr>
      in (task, s\<lparr>tasks := tasks s @ [task]\<rparr>))"

text \<open>Committing a changed Task row: the row with that primary key is rewritten.\<close>

definition save_task :: "Task \<Rightarrow> database \<Rightarrow> database" where
  "save_task task s = s\<lparr>tasks := map (\<lambda>r. if t_id r = t_id task then task else r) (tasks s)\<rparr>"

text \<open>\<open>session.delete(task)\<close> and commit.\<close>

definition remove_task :: "Task \<Rightarrow> database \<Rightarrow> database" where
  "remove_task task s = s\<lparr>tasks := filter (\<lambda>r. t_id r \<noteq> t_id task) (tasks s)\<rparr>"

text \<open>
  \<open>ORDER BY created_at DESC\<close>. Rows with equal \<open>created_at\<close> come in an order the
  datastore chooses; the model keeps their table order. No theorem below depends on
  that choice.
\<close>

definition order_by_desc_created_at :: "Task list \<Rightarrow> Task list" where
  "order_by_desc_created_at rows = sort_key (\<lambda>t. - t_created_at t) rows"

section \<open>UserService (app/user_service.py)\<close>

definition get_user_by_id :: "int \<Rightarrow> database \<Rightarrow> User option" where
  "get_user_by_id user_id s = session_get_user s user_id"

definition get_user_by_email :: "string \<Rightarrow> database \<Rightarrow> User option" where
  "get_user_by_email email s = find (\<lambda>u. u_email u = email) (users s)"

definition get_all_users :: "database \<Rightarrow> User list" where
  "get_all_users s = users s"

definition create_user :: "UserCreate \<Rightarrow> timestamp \<Rightarrow> database \<Rightarrow> (error + User option) \<times> database" where
  "create_user user_data now s =
     (case find (\<lambda>u. u_email u = uc_email user_data) (users s) of
        Some existing_user \<Rightarrow> (Inr None, s)
      | None \<Rightarrow>
          (case insert_user (uc_name user_data) (uc_email user_data) now s of
             Inl e \<Rightarrow> (Inl e, s)
           | Inr (user, s') \<Rightarrow> (Inr (Some user), s')))"

definition default_email :: string where
  "default_email = ''default@todo.app''"

definition get_or_create_default_user :: "timestamp \<Rightarrow> database \<Rightarrow> (error + User) \<times> database" where
  "get_or_create_default_user now s =
     (case get_user_by_email default_email s of
        Some user \<Rightarrow> (Inr user, s)
      | None \<Rightarrow>
          (case create_user \<lparr>uc_name = ''Default User'', uc_email = default_email\<rparr> now s of
             (Inl e, s') \<Rightarrow> (Inl e, s')
           | (Inr None, s') \<Rightarrow> (Inl (RuntimeError ''Failed to create default user''), s')
           | (Inr (Some created_user), s') \<Rightarrow> (Inr created_user, s')))"

section \<open>TaskService (app/task_service.py)\<close>

definition create_task :: "TaskCreate \<Rightarrow> timestamp \<Rightarrow> database \<Rightarrow> Task option \<times> database" where
  "create_task task_data now s =
     (case session_get_user s (tc_user_id task_data) of
        None \<Rightarrow> (None, s)
      | Some user \<Rightarrow>
          (let (task, s') = insert_task (tc_title task_data) (tc_description task_data)
                              (tc_user_id task_data) now s
           in (Some task, s')))"

definition get_user_tasks :: "int \<Rightarrow> bool option \<Rightarrow> database \<Rightarrow> Task list" where
  "get_user_tasks user_id completed s =
     (let query = filter (\<lambda>t. t_user_id t = user_id) (tasks s);
          query = (case completed of
                     Some c \<Rightarrow> filter (\<lambda>t. t_completed t = c) query
                   | None \<Rightarrow> query)
      in order_by_desc_created_at query)"

definition get_task_by_id :: "int \<Rightarrow> database \<Rightarrow> Task option" where
  "get_task_by_id task_id s = session_get_task s task_id"

text \<open>
  The \<open>setattr\<close> loop over the supplied fields, followed by the commit. The three columns
  are NOT NULL, so a field supplied as \<open>None\<close> makes the commit raise; nothing is
  persisted then.
\<close>

definition set_field :: "'a field \<Rightarrow> 'a \<Rightarrow> 'a option" where
  "set_field f old = (case f of Unset \<Rightarrow> Some old | Supplied v \<Rightarrow> v)"

definition apply_update :: "TaskUpdate \<Rightarrow> Task \<Rightarrow> error + Task" where
  "apply_update task_data task =
     (case (set_field (tu_title task_data) (t_title task),
            set_field (tu_description task_data) (t_description task),
            set_field (tu_completed task_data) (t_completed task)) of
        (Some title, Some description, Some completed) \<Rightarrow>
          Inr (task\<lparr>t_title := title, t_description := description, t_completed := completed\<rparr>)
      | _ \<Rightarrow> Inl IntegrityError)"

definition update_task :: "int \<Rightarrow> TaskUpdate \<Rightarrow> timestamp \<Rightarrow> database \<Rightarrow> (error + Task option) \<times> database" where
  "update_task task_id task_data now s =
     (case session_get_task s task_id of
        None \<Rightarrow> (Inr None, s)
      | Some task \<Rightarrow>
          (case apply_update task_data task of
             Inl e \<Rightarrow> (Inl e, s)
           | Inr task' \<Rightarrow>
               (let task'' = task'\<lparr>t_updated_at := Some now\<rparr>
                in (Inr (Some task''), save_task task'' s))))"

definition toggle_task_completion :: "int \<Rightarrow> timestamp \<Rightarrow> database \<Rightarrow> Task option \<times> database" where
  "toggle_task_completion task_id now s =
     (case session_get_task s task_id of
        None \<Rightarrow> (None, s)
      | Some task \<Rightarrow>
          (let task' = task\<lparr>t_completed := \<not> t_completed task, t_updated_at := Some now\<rparr>
           in (Some task', save_task task' s)))"

definition delete_task :: "int \<Rightarrow> database \<Rightarrow> bool \<times> database" where
  "delete_task task_id s =
     (case session_get_task s task_id of
        None \<Rightarrow> (False, s)
      | Some task \<Rightarrow> (True, remove_task task s))"

text \<open>Any number of task creations, one after the other, for any mix of users.\<close>

fun create_tasks :: "(TaskCreate \<times> timestamp) list \<Rightarrow> database \<Rightarrow> database" where
  "create_tasks [] s = s"
| "create_tasks ((task_data, now) # reqs) s = create_tasks reqs (snd (create_task task_data now s))"

text \<open>
  The operations that write, as one call each with the clock reading it takes, and a
  sequence of such calls run in order. The reading is ignored by \<open>delete_task\<close>, which
  takes none. The lookups and listings leave the datastore alone and are not listed.
\<close>

datatype operation =
    CreateUser UserCreate
  | GetOrCreateDefaultUser
  | CreateTask TaskCreate
  | UpdateTask int TaskUpdate
  | ToggleTaskCompletion int
  | DeleteTask int

fun apply_operation :: "operation \<Rightarrow> timestamp \<Rightarrow> database \<Rightarrow> database" where
  "apply_operation (CreateUser user_data) now s = snd (create_user user_data now s)"
| "apply_operation GetOrCreateDefaultUser now s = snd (get_or_create_default_user now s)"
| "apply_operation (CreateTask task_data) now s = snd (create_task task_data now s)"
| "apply_operation (UpdateTask task_id task_data) now s = snd (update_task task_id task_data now s)"
| "apply_operation (ToggleTaskCompletion task_id) now s = snd (toggle_task_completion task_id now s)"
| "apply_operation (DeleteTask task_id) now s = snd (delete_task task_id s)"

fun run :: "(operation \<times> timestamp) list \<Rightarrow> database \<Rightarrow> database" where
  "run [] s = s"
| "run ((op, now) # calls) s = run calls (apply_operation op now s)"

section \<open>Sample data\<close>

text \<open>
  Concrete rows, tables and request sequences on which the theorems below are run.
\<close>

definition sample_default_user :: User where
  "sample_default_user = \<lparr>u_id = 1, u_name = ''Default User'', u_email = ''default@todo.app'',
                           u_is_active = True, u_created_at = 1\<rparr>"

definition sample_user2 :: User where
  "sample_user2 = \<lparr>u_id = 2, u_name = ''User 2'', u_email = ''user2@example.com'',
                    u_is_active = True, u_created_at = 2\<rparr>"

definition sample_task :: Task where
  "sample_task = \<lparr>t_id = 1, t_title = ''To Delete'', t_description = '''', t_completed = False,
                   t_user_id = 1, t_created_at = 10, t_updated_at = None\<rparr>"

definition sample_done_task :: Task where
  "sample_done_task = \<lparr>t_id = 2, t_title = ''Completed Task'', t_description = ''Original Description'',
                        t_completed = True, t_user_id = 1, t_created_at = 11, t_updated_at = Some 12\<rparr>"

definition sample_user1_task :: Task where
  "sample_user1_task = \<lparr>t_id = 1, t_title = ''User 1 Task'', t_description = '''', t_completed = False,
                         t_user_id = 1, t_created_at = 20, t_updated_at = None\<rparr>"

definition sample_db :: database where
  "sample_db = \<lparr>users = [sample_default_user], tasks = [sample_task, sample_done_task]\<rparr>"

definition sample_two_users_db :: database where
  "sample_two_users_db = \<lparr>users = [sample_default_user, sample_user2], tasks = []\<rparr>"

definition sample_requests :: "(TaskCreate \<times> timestamp) list" where
  "sample_requests =
     [(\<lparr>tc_title = ''User 2 Task'', tc_description = '''', tc_user_id = 2\<rparr>, 21),
      (\<lparr>tc_title = ''User 1 Task'', tc_description = '''', tc_user_id = 1\<rparr>, 22),
      (\<lparr>tc_title = ''User 2 Again'', tc_description = '''', tc_user_id = 2\<rparr>, 23)]"

definition sample_renamed_task :: Task where
  "sample_renamed_task = \<lparr>t_id = 1, t_title = ''Renamed'', t_description = '''', t_completed = False,
                           t_user_id = 1, t_created_at = 10, t_updated_at = Some 11\<rparr>"

definition sample_calls :: "(operation \<times> timestamp) list" where
  "sample_calls =
     [(CreateUser \<lparr>uc_name = ''Test User'', uc_email = ''test@example.com''\<rparr>, 1),
      (CreateTask \<lparr>tc_title = ''Test Task'', tc_description = '''', tc_user_id = 1\<rparr>, 10),
      (UpdateTask 1 \<lparr>tu_title = Supplied (Some ''Renamed''), tu_description = Unset, tu_completed = Unset\<rparr>, 11)]"

section \<open>Facts about the datastore primitives\<close>

lemma find_map_replace:
  "find (\<lambda>r. t_id r = k) rows = Some t \<Longrightarrow> t_id t' = k \<Longrightarrow>
   find (\<lambda>r. t_id r = k) (map (\<lambda>r. if t_id r = k then t' else r) rows) = Some t'"
  by (induction rows) (auto split: if_splits)

lemma find_filter_removed:
  "find (\<lambda>r. t_id r = k) (filter (\<lambda>r. t_id r \<noteq> k) rows) = None"
  by (induction rows) auto

lemma find_append_new:
  "find P xs = None \<Longrightarrow> P x \<Longrightarrow> find P (xs @ [x]) = Some x"
  by (induction xs) (auto split: if_splits)

lemma find_None_not_mem:
  "find (\<lambda>u. u_email u = e) us = None \<Longrightarrow> e \<notin> set (map u_email us)"
  by (auto simp: find_None_iff)

lemma session_get_task_id: "session_get_task s k = Some t \<Longrightarrow> t_id t = k"
  by (auto simp: session_get_task_def find_Some_iff)

lemma session_get_task_save:
  "session_get_task s k = Some t \<Longrightarrow> t_id t' = k \<Longrightarrow> session_get_task (save_task t' s) k = Some t'"
  by (simp add: session_get_task_def save_task_def find_map_replace)

lemma session_get_task_remove:
  "session_get_task (remove_task t s) (t_id t) = None"
  by (simp add: session_get_task_def remove_task_def find_filter_removed)

subsection \<open>Ordering\<close>

lemma order_by_desc_sorted:
  "sorted_wrt (\<lambda>a b. t_created_at b \<le> t_created_at a) (order_by_desc_created_at rows)"
proof -
  have "sorted (map (\<lambda>t. - t_created_at t) (sort_key (\<lambda>t. - t_created_at t) rows))"
    by (rule sorted_sort_key)
  then show ?thesis
    by (simp add: order_by_desc_created_at_def sorted_map)
qed

lemma order_by_desc_set: "set (order_by_desc_created_at rows) = set rows"
  by (simp add: order_by_desc_created_at_def)

lemma order_by_desc_length: "length (order_by_desc_created_at rows) = length rows"
  by (simp add: order_by_desc_created_at_def)

lemma order_by_desc_single: "order_by_desc_created_at [x] = [x]"
  by (simp add: order_by_desc_created_at_def)

lemma order_by_desc_two:
  "t_created_at x < t_created_at y \<Longrightarrow> order_by_desc_created_at [x, y] = [y, x]"
  by (simp add: order_by_desc_created_at_def)

lemma newer_first:
  assumes "sorted_wrt (\<lambda>a b. t_created_at b \<le> t_created_at a) rows"
    and "i < length rows" and "j < length rows"
    and "t_created_at (rows ! j) < t_created_at (rows ! i)"
  shows "i < j"
proof (rule ccontr)
  assume "\<not> i < j"
  with assms(4) have "j < i" by (cases "i = j") auto
  from sorted_wrt_nth_less [OF assms(1) this assms(2)] assms(4) show False by simp
qed

subsection \<open>The operations on rows that exist\<close>

lemma create_user_fresh_email:
  assumes "find (\<lambda>u. u_email u = uc_email user_data) (users s) = None"
  shows "create_user user_data now s =
           (Inr (Some \<lparr>u_id = next_id (map u_id (users s)), u_name = uc_name user_data,
                       u_email = uc_email user_data, u_is_active = True, u_created_at = now\<rparr>),
            s\<lparr>users := users s @ [\<lparr>u_id = next_id (map u_id (users s)), u_name = uc_name user_data,
                       u_email = uc_email user_data, u_is_active = True, u_created_at = now\<rparr>]\<rparr>)"
  using assms find_None_not_mem [OF assms]
  by (simp add: create_user_def insert_user_def Let_def)

lemma create_task_existing_user:
  assumes "session_get_user s (tc_user_id d) = Some u"
  shows "create_task d now s =
           (Some \<lparr>t_id = next_id (map t_id (tasks s)), t_title = tc_title d,
                   t_description = tc_description d, t_completed = False, t_user_id = tc_user_id d,
                   t_created_at = now, t_updated_at = None\<rparr>,
            s\<lparr>tasks := tasks s @ [\<lparr>t_id = next_id (map t_id (tasks s)), t_title = tc_title d,
                   t_description = tc_description d, t_completed = False, t_user_id = tc_user_id d,
                   t_created_at = now, t_updated_at = None\<rparr>]\<rparr>)"
  using assms by (simp add: create_task_def insert_task_def Let_def)

lemma create_task_returns_row:
  "create_task d now s = (Some t, s') \<Longrightarrow> t \<in> set (tasks s') \<and> t_user_id t = tc_user_id d"
  by (auto simp: create_task_def insert_task_def Let_def split: option.splits)

lemma create_task_keeps_rows:
  "t \<in> set (tasks s) \<Longrightarrow> t \<in> set (tasks (snd (create_task d now s)))"
  by (auto simp: create_task_def insert_task_def Let_def split: option.splits)

lemma create_tasks_keeps_rows:
  "t \<in> set (tasks s) \<Longrightarrow> t \<in> set (tasks (create_tasks reqs s))"
proof (induction reqs arbitrary: s)
  case Nil
  then show ?case by simp
next
  case (Cons r reqs)
  obtain d now where r: "r = (d, now)" by (cases r)
  from Cons.prems have "t \<in> set (tasks (snd (create_task d now s)))"
    by (rule create_task_keeps_rows)
  then show ?case unfolding r by (simp add: Cons.IH)
qed

lemma update_task_existing:
  "session_get_task s k = Some t \<Longrightarrow> apply_update d t = Inr t' \<Longrightarrow>
   update_task k d now s =
     (Inr (Some (t'\<lparr>t_updated_at := Some now\<rparr>)), save_task (t'\<lparr>t_updated_at := Some now\<rparr>) s)"
  by (simp add: update_task_def Let_def)

lemma update_task_rejected:
  "session_get_task s k = Some t \<Longrightarrow> apply_update d t = Inl e \<Longrightarrow>
   update_task k d now s = (Inl e, s)"
  by (simp add: update_task_def)

lemma apply_update_cases:
  "(\<exists>t'. apply_update d t = Inr t' \<and> t_id t' = t_id t \<and> t_user_id t' = t_user_id t
         \<and> t_created_at t' = t_created_at t \<and> t_updated_at t' = t_updated_at t
         \<and> Some (t_title t') = set_field (tu_title d) (t_title t)
         \<and> Some (t_description t') = set_field (tu_description d) (t_description t)
         \<and> Some (t_completed t') = set_field (tu_completed d) (t_completed t))
   \<or> (apply_update d t = Inl IntegrityError
       \<and> (tu_title d = Supplied None \<or> tu_description d = Supplied None \<or> tu_completed d = Supplied None))"
  by (auto simp: apply_update_def set_field_def split: field.splits option.splits)

lemma get_user_tasks_set:
  "set (get_user_tasks user_id completed s) =
     {t \<in> set (tasks s). t_user_id t = user_id \<and> (\<forall>c. completed = Some c \<longrightarrow> t_completed t = c)}"
  by (cases completed) (auto simp: get_user_tasks_def Let_def order_by_desc_set)

lemma get_user_tasks_sorted:
  "sorted_wrt (\<lambda>a b. t_created_at b \<le> t_created_at a) (get_user_tasks user_id completed s)"
  by (simp add: get_user_tasks_def Let_def order_by_desc_sorted)

lemma get_user_tasks_owner:
  "t \<in> set (get_user_tasks user_id completed s) \<Longrightarrow> t_user_id t = user_id"
  by (simp add: get_user_tasks_set)

subsection \<open>Creation times along a run\<close>

lemma next_id_above: "k \<in> set ids \<Longrightarrow> k < next_id ids"
proof -
  have "\<And>a. k \<in> set ids \<Longrightarrow> k \<le> fold max ids a"
  proof (induction ids)
    case Nil then show ?case by simp
  next
    case (Cons x xs)
    have mono: "\<And>b. b \<le> fold max xs b"
    proof -
      fix b show "b \<le> fold max xs b"
      proof (induction xs arbitrary: b)
        case Nil show ?case by simp
      next
        case (Cons y ys)
        have "b \<le> max y b" by simp
        also have "\<dots> \<le> fold max ys (max y b)" by (rule Cons.IH)
        finally show ?case by simp
      qed
    qed
    show ?case
    proof (cases "k = x")
      case True
      have "x \<le> max x a" by simp
      also have "\<dots> \<le> fold max xs (max x a)" by (rule mono)
      finally show ?thesis using True by simp
    next
      case False
      with Cons.prems have "k \<in> set xs" by simp
      then show ?thesis by (simp add: Cons.IH)
    qed
  qed
  then have "k \<in> set ids \<Longrightarrow> k \<le> fold max ids 0" .
  then show "k \<in> set ids \<Longrightarrow> k < next_id ids"
    unfolding next_id_def by linarith
qed

lemma find_append_fresh:
  "\<forall>r \<in> set rows. \<not> P r \<Longrightarrow> P x \<Longrightarrow> find P (rows @ [x]) = Some x"
  by (induction rows) auto

lemma create_task_then_get:
  assumes "create_task d now s = (Some t, s')"
  shows "get_task_by_id (t_id t) s' = Some t \<and> t_created_at t = now"
proof -
  from assms obtain u where u: "session_get_user s (tc_user_id d) = Some u"
    by (auto simp: create_task_def split: option.splits)
  let ?t = "\<lparr>t_id = next_id (map t_id (tasks s)), t_title = tc_title d,
             t_description = tc_description d, t_completed = False, t_user_id = tc_user_id d,
             t_created_at = now, t_updated_at = None\<rparr>"
  from create_task_existing_user [OF u, of now] assms
  have t: "t = ?t" and s': "s' = s\<lparr>tasks := tasks s @ [?t]\<rparr>" by simp_all
  have "\<forall>r \<in> set (tasks s). t_id r \<noteq> next_id (map t_id (tasks s))"
  proof
    fix r assume "r \<in> set (tasks s)"
    then have "t_id r \<in> set (map t_id (tasks s))" by simp
    from next_id_above [OF this] show "t_id r \<noteq> next_id (map t_id (tasks s))" by simp
  qed
  then have "find (\<lambda>r. t_id r = next_id (map t_id (tasks s))) (tasks s @ [?t]) = Some ?t"
    by (intro find_append_fresh) simp_all
  then show ?thesis unfolding t s' by (simp add: get_task_by_id_def session_get_task_def)
qed

lemma create_user_tasks: "tasks (snd (create_user d now s)) = tasks s"
  by (auto simp: create_user_def insert_user_def Let_def split: option.splits)

lemma default_user_tasks: "tasks (snd (get_or_create_default_user now s)) = tasks s"
proof (cases "get_user_by_email default_email s")
  case (Some u)
  then show ?thesis by (simp add: get_or_create_default_user_def)
next
  case None
  have "tasks (snd (create_user \<lparr>uc_name = ''Default User'', uc_email = default_email\<rparr> now s)) = tasks s"
    by (rule create_user_tasks)
  with None show ?thesis
    by (auto simp: get_or_create_default_user_def split: prod.splits sum.splits option.splits)
qed

lemma session_get_task_mem: "session_get_task s k = Some t \<Longrightarrow> t \<in> set (tasks s)"
  by (auto simp: session_get_task_def find_Some_iff)

lemma save_task_created_bound:
  "\<forall>r \<in> set (tasks s). t_created_at r \<le> c \<Longrightarrow> t_created_at t' \<le> c \<Longrightarrow>
   \<forall>r \<in> set (tasks (save_task t' s)). t_created_at r \<le> c"
  by (auto simp: save_task_def)

lemma apply_update_created_at: "apply_update d t = Inr t' \<Longrightarrow> t_created_at t' = t_created_at t"
  using apply_update_cases [of d t] by auto

lemma apply_operation_created_bound:
  assumes "\<forall>r \<in> set (tasks s). t_created_at r \<le> c" and "now \<le> c"
  shows "\<forall>r \<in> set (tasks (apply_operation op now s)). t_created_at r \<le> c"
proof (cases op)
  case (CreateUser d)
  with assms(1) show ?thesis by (simp add: create_user_tasks)
next
  case GetOrCreateDefaultUser
  with assms(1) show ?thesis by (simp add: default_user_tasks)
next
  case (CreateTask d)
  with assms show ?thesis
    by (auto simp: create_task_def insert_task_def Let_def split: option.splits)
next
  case (UpdateTask k d)
  show ?thesis
  proof (cases "session_get_task s k")
    case None
    with assms(1) UpdateTask show ?thesis by (simp add: update_task_def)
  next
    case (Some t)
    then have m: "t_created_at t \<le> c" using assms(1) session_get_task_mem by blast
    show ?thesis
    proof (cases "apply_update d t")
      case (Inl e)
      with Some assms(1) UpdateTask show ?thesis by (simp add: update_task_def)
    next
      case (Inr t')
      then have "t_created_at (t'\<lparr>t_updated_at := Some now\<rparr>) \<le> c"
        using m by (simp add: apply_update_created_at)
      with assms(1) have "\<forall>r \<in> set (tasks (save_task (t'\<lparr>t_updated_at := Some now\<rparr>) s)). t_created_at r \<le> c"
        by (rule save_task_created_bound)
      with Some Inr UpdateTask show ?thesis by (simp add: update_task_def Let_def)
    qed
  qed
next
  case (ToggleTaskCompletion k)
  show ?thesis
  proof (cases "session_get_task s k")
    case None
    with assms(1) ToggleTaskCompletion show ?thesis by (simp add: toggle_task_completion_def)
  next
    case (Some t)
    then have "t_created_at (t\<lparr>t_completed := \<not> t_completed t, t_updated_at := Some now\<rparr>) \<le> c"
      using assms(1) session_get_task_mem by fastforce
    with assms(1) have "\<forall>r \<in> set (tasks (save_task (t\<lparr>t_completed := \<not> t_completed t, t_updated_at := Some now\<rparr>) s)). t_created_at r \<le> c"
      by (rule save_task_created_bound)
    with Some ToggleTaskCompletion show ?thesis by (simp add: toggle_task_completion_def Let_def)
  qed
next
  case (DeleteTask k)
  with assms(1) show ?thesis
    by (auto simp: delete_task_def remove_task_def split: option.splits)
qed

lemma run_created_bound:
  "\<forall>r \<in> set (tasks s). t_created_at r \<le> c \<Longrightarrow> \<forall>n \<in> set (map snd calls). n \<le> c \<Longrightarrow>
   \<forall>r \<in> set (tasks (run calls s)). t_created_at r \<le> c"
proof (induction calls arbitrary: s)
  case Nil
  then show ?case by simp
next
  case (Cons call calls)
  obtain op now where call: "call = (op, now)" by (cases call)
  from Cons.prems(2) have n: "now \<le> c" and rest: "\<forall>n \<in> set (map snd calls). n \<le> c"
    by (simp_all add: call)
  from Cons.prems(1) n have "\<forall>r \<in> set (tasks (apply_operation op now s)). t_created_at r \<le> c"
    by (rule apply_operation_created_bound)
  from Cons.IH [OF this rest] show ?case by (simp add: call)
qed

section \<open>Task creation for a missing owner\<close>

text \<open>
  C1. When the \<open>user_id\<close> of a task-creation request references no existing User,
  \<open>create_task\<close> returns \<open>None\<close> and the datastore is exactly what it was: no Task
  row is persisted.
\<close>

theorem create_task_nonexistent_user:
  "get_user_by_id (tc_user_id task_data) s = None \<Longrightarrow> create_task task_data now s = (None, s)"
  by (simp add: create_task_def get_user_by_id_def)

theorem create_task_nonexistent_user_witness:
  "get_user_by_id (tc_user_id \<lparr>tc_title = ''Test task'', tc_description = ''This should fail'', tc_user_id = 999\<rparr>) empty_db = None
   \<and> create_task \<lparr>tc_title = ''Test task'', tc_description = ''This should fail'', tc_user_id = 999\<rparr> 5 empty_db = (None, empty_db)"
  using create_task_nonexistent_user [of "\<lparr>tc_title = ''Test task'', tc_description = ''This should fail'', tc_user_id = 999\<rparr>" empty_db 5]
  by (simp add: get_user_by_id_def session_get_user_def empty_db_def)

section \<open>Listing order\<close>

text \<open>
  C2. \<open>get_user_tasks\<close> returns the user's tasks ordered by \<open>created_at\<close> descending:
  the result is sorted that way, it holds every task of the user, a row with a later
  \<open>created_at\<close> stands at a smaller index than one with an earlier \<open>created_at\<close>, and so
  of any two tasks of the user the one created later (T2) appears before the one created
  earlier (T1). In particular, for an existing user without tasks, creating T1 and then T2
  at a later clock reading makes the listing \<open>[T2, T1]\<close>.
\<close>

theorem get_user_tasks_newest_first:
  "sorted_wrt (\<lambda>a b. t_created_at b \<le> t_created_at a) (get_user_tasks user_id completed s)
   \<and> set (get_user_tasks user_id None s) = {t \<in> set (tasks s). t_user_id t = user_id}
   \<and> (\<forall>i j. i < length (get_user_tasks user_id completed s)
          \<longrightarrow> j < length (get_user_tasks user_id completed s)
          \<longrightarrow> t_created_at (get_user_tasks user_id completed s ! j)
                < t_created_at (get_user_tasks user_id completed s ! i)
          \<longrightarrow> i < j)
   \<and> (\<forall>T1 T2. T1 \<in> set (tasks s) \<longrightarrow> T2 \<in> set (tasks s)
          \<longrightarrow> t_user_id T1 = user_id \<longrightarrow> t_user_id T2 = user_id
          \<longrightarrow> t_created_at T1 < t_created_at T2
          \<longrightarrow> (\<exists>i j. i < j \<and> j < length (get_user_tasks user_id None s)
                  \<and> get_user_tasks user_id None s ! i = T2
                  \<and> get_user_tasks user_id None s ! j = T1))
   \<and> (get_user_by_id user_id s \<noteq> None
        \<longrightarrow> filter (\<lambda>t. t_user_id t = user_id) (tasks s) = []
        \<longrightarrow> tc_user_id d1 = user_id \<longrightarrow> tc_user_id d2 = user_id \<longrightarrow> now1 < now2
        \<longrightarrow> (\<exists>T1 s1 T2 s2.
               create_task d1 now1 s = (Some T1, s1)
             \<and> create_task d2 now2 s1 = (Some T2, s2)
             \<and> t_title T1 = tc_title d1 \<and> t_title T2 = tc_title d2
             \<and> get_user_tasks user_id None s2 = [T2, T1]))"
proof (intro conjI allI impI)
  show "sorted_wrt (\<lambda>a b. t_created_at b \<le> t_created_at a) (get_user_tasks user_id completed s)"
    by (rule get_user_tasks_sorted)
  show "set (get_user_tasks user_id None s) = {t \<in> set (tasks s). t_user_id t = user_id}"
    by (simp add: get_user_tasks_set)
next
  fix i j
  assume "i < length (get_user_tasks user_id completed s)"
    and "j < length (get_user_tasks user_id completed s)"
    and "t_created_at (get_user_tasks user_id completed s ! j)
          < t_created_at (get_user_tasks user_id completed s ! i)"
  with get_user_tasks_sorted show "i < j" by (rule newer_first)
next
  fix T1 T2
  assume m: "T1 \<in> set (tasks s)" "T2 \<in> set (tasks s)"
    and o: "t_user_id T1 = user_id" "t_user_id T2 = user_id"
    and lt: "t_created_at T1 < t_created_at T2"
  let ?L = "get_user_tasks user_id None s"
  from m o have "T1 \<in> set ?L" "T2 \<in> set ?L" by (simp_all add: get_user_tasks_set)
  then obtain i j where i: "i < length ?L" "?L ! i = T2" and j: "j < length ?L" "?L ! j = T1"
    by (auto simp: in_set_conv_nth)
  from lt i(2) j(2) have "t_created_at (?L ! j) < t_created_at (?L ! i)" by simp
  with get_user_tasks_sorted i(1) j(1) have "i < j" by (rule newer_first)
  with i j show "\<exists>i j. i < j \<and> j < length ?L \<and> ?L ! i = T2 \<and> ?L ! j = T1" by blast
next
  assume u: "get_user_by_id user_id s \<noteq> None"
    and e: "filter (\<lambda>t. t_user_id t = user_id) (tasks s) = []"
    and d1: "tc_user_id d1 = user_id" and d2: "tc_user_id d2 = user_id"
    and lt: "now1 < now2"
  define T1 where "T1 = \<lparr>t_id = next_id (map t_id (tasks s)), t_title = tc_title d1,
                   t_description = tc_description d1, t_completed = False, t_user_id = tc_user_id d1,
                   t_created_at = now1, t_updated_at = None\<rparr>"
  define s1 where "s1 = s\<lparr>tasks := tasks s @ [T1]\<rparr>"
  define T2 where "T2 = \<lparr>t_id = next_id (map t_id (tasks s1)), t_title = tc_title d2,
                   t_description = tc_description d2, t_completed = False, t_user_id = tc_user_id d2,
                   t_created_at = now2, t_updated_at = None\<rparr>"
  define s2 where "s2 = s1\<lparr>tasks := tasks s1 @ [T2]\<rparr>"
  from u obtain usr where g: "session_get_user s user_id = Some usr"
    by (auto simp: get_user_by_id_def)
  then have g1: "session_get_user s1 user_id = Some usr"
    by (simp add: session_get_user_def s1_def)
  have a: "create_task d1 now1 s = (Some T1, s1)"
    using create_task_existing_user [of s d1 usr now1] g d1 by (simp add: T1_def s1_def)
  have b: "create_task d2 now2 s1 = (Some T2, s2)"
    using create_task_existing_user [of s1 d2 usr now2] g1 d2 by (simp add: T2_def s2_def)
  have "filter (\<lambda>t. t_user_id t = user_id) (tasks s2) = [T1, T2]"
    using e d1 d2 by (simp add: s2_def s1_def T1_def T2_def)
  moreover have "t_created_at T1 < t_created_at T2" using lt by (simp add: T1_def T2_def)
  ultimately have c: "get_user_tasks user_id None s2 = [T2, T1]"
    by (simp add: get_user_tasks_def Let_def order_by_desc_two)
  have "t_title T1 = tc_title d1" "t_title T2 = tc_title d2" by (simp_all add: T1_def T2_def)
  with a b c show "\<exists>T1 s1 T2 s2.
               create_task d1 now1 s = (Some T1, s1)
             \<and> create_task d2 now2 s1 = (Some T2, s2)
             \<and> t_title T1 = tc_title d1 \<and> t_title T2 = tc_title d2
             \<and> get_user_tasks user_id None s2 = [T2, T1]" by blast
qed

theorem get_user_tasks_newest_first_witness:
  "get_user_by_id 1 \<lparr>users = [sample_default_user], tasks = []\<rparr> \<noteq> None
   \<and> filter (\<lambda>t. t_user_id t = 1) (tasks \<lparr>users = [sample_default_user], tasks = []\<rparr>) = []
   \<and> (10::int) < 11
   \<and> (\<exists>T1 s1 T2 s2.
         create_task \<lparr>tc_title = ''Task 1'', tc_description = '''', tc_user_id = 1\<rparr> 10
           \<lparr>users = [sample_default_user], tasks = []\<rparr> = (Some T1, s1)
       \<and> create_task \<lparr>tc_title = ''Task 2'', tc_description = '''', tc_user_id = 1\<rparr> 11 s1 = (Some T2, s2)
       \<and> t_title T1 = ''Task 1'' \<and> t_title T2 = ''Task 2''
       \<and> get_user_tasks 1 None s2 = [T2, T1])
   \<and> sample_task \<in> set (tasks sample_db) \<and> sample_done_task \<in> set (tasks sample_db)
   \<and> t_created_at sample_task < t_created_at sample_done_task
   \<and> (\<exists>i j. i < j \<and> j < length (get_user_tasks 1 None sample_db)
         \<and> get_user_tasks 1 None sample_db ! i = sample_done_task
         \<and> get_user_tasks 1 None sample_db ! j = sample_task)"
proof -
  let ?s = "\<lparr>users = [sample_default_user], tasks = []\<rparr>"
  let ?d1 = "\<lparr>tc_title = ''Task 1'', tc_description = '''', tc_user_id = 1\<rparr>"
  let ?d2 = "\<lparr>tc_title = ''Task 2'', tc_description = '''', tc_user_id = 1\<rparr>"
  have a: "get_user_by_id 1 ?s \<noteq> None"
    by (simp add: get_user_by_id_def session_get_user_def sample_default_user_def)
  have b: "filter (\<lambda>t. t_user_id t = 1) (tasks ?s) = []" by simp
  have c: "sample_task \<in> set (tasks sample_db)" "sample_done_task \<in> set (tasks sample_db)"
    "t_user_id sample_task = 1" "t_user_id sample_done_task = 1"
    "t_created_at sample_task < t_created_at sample_done_task"
    by (simp_all add: sample_db_def sample_task_def sample_done_task_def)
  from get_user_tasks_newest_first [of 1 None ?s ?d1 ?d2 10 11] a b
  have d: "\<exists>T1 s1 T2 s2.
         create_task ?d1 10 ?s = (Some T1, s1)
       \<and> create_task ?d2 11 s1 = (Some T2, s2)
       \<and> t_title T1 = ''Task 1'' \<and> t_title T2 = ''Task 2''
       \<and> get_user_tasks 1 None s2 = [T2, T1]"
    by simp
  from get_user_tasks_newest_first [of 1 None sample_db ?d1 ?d2 10 11] c
  have e: "\<exists>i j. i < j \<and> j < length (get_user_tasks 1 None sample_db)
         \<and> get_user_tasks 1 None sample_db ! i = sample_done_task
         \<and> get_user_tasks 1 None sample_db ! j = sample_task"
    by blast
  from a b c d e show ?thesis by simp
qed

section \<open>Filtering by completion\<close>

text \<open>
  C3. For a user whose tasks are exactly one active task \<open>a\<close> and one completed task
  \<open>c\<close> (in either table order), listing with \<open>completed=True\<close> returns exactly \<open>c\<close>,
  listing with \<open>completed=False\<close> returns exactly \<open>a\<close>, and listing without a filter
  returns both.
\<close>

theorem get_user_tasks_filter:
  assumes "filter (\<lambda>t. t_user_id t = user_id) (tasks s) = [a, c]
           \<or> filter (\<lambda>t. t_user_id t = user_id) (tasks s) = [c, a]"
    and "\<not> t_completed a" and "t_completed c"
  shows "get_user_tasks user_id (Some True) s = [c]
       \<and> get_user_tasks user_id (Some False) s = [a]
       \<and> set (get_user_tasks user_id None s) = {a, c}
       \<and> length (get_user_tasks user_id None s) = 2"
proof -
  from assms(1) show ?thesis
  proof
    assume q: "filter (\<lambda>t. t_user_id t = user_id) (tasks s) = [a, c]"
    show ?thesis
      unfolding get_user_tasks_def Let_def q using assms(2,3)
      by (auto simp: order_by_desc_single order_by_desc_set order_by_desc_length)
  next
    assume q: "filter (\<lambda>t. t_user_id t = user_id) (tasks s) = [c, a]"
    show ?thesis
      unfolding get_user_tasks_def Let_def q using assms(2,3)
      by (auto simp: order_by_desc_single order_by_desc_set order_by_desc_length)
  qed
qed

theorem get_user_tasks_filter_witness:
  "filter (\<lambda>t. t_user_id t = 1) (tasks sample_db) = [sample_task, sample_done_task]
   \<and> \<not> t_completed sample_task \<and> t_completed sample_done_task
   \<and> get_user_tasks 1 (Some True) sample_db = [sample_done_task]
   \<and> get_user_tasks 1 (Some False) sample_db = [sample_task]
   \<and> set (get_user_tasks 1 None sample_db) = {sample_task, sample_done_task}
   \<and> length (get_user_tasks 1 None sample_db) = 2"
proof -
  have a: "filter (\<lambda>t. t_user_id t = 1) (tasks sample_db) = [sample_task, sample_done_task]"
    by (simp add: sample_db_def sample_task_def sample_done_task_def)
  have b: "\<not> t_completed sample_task" by (simp add: sample_task_def)
  have c: "t_completed sample_done_task" by (simp add: sample_done_task_def)
  from get_user_tasks_filter [OF disjI1 [OF a] b c] a b c show ?thesis by simp
qed

section \<open>Toggling completion\<close>

text \<open>
  C4. For every existing task, in any datastore, two toggles in a row succeed and bring
  \<open>completed\<close> back to its original value, and after the first toggle \<open>updated_at\<close> is
  present and is the clock reading of that call. That reading is at least \<open>created_at\<close>:
  \<open>created_at\<close> is a clock reading stored by \<open>create_task\<close> and no operation rewrites
  it, so in a datastore built from the empty one by any calls of the operations, none
  of which read a later clock value than the toggle does, and likewise for a task that
  \<open>create_task\<close> has just returned at a reading no later than the toggle's,
  \<open>created_at\<close> is not above the toggle's reading.
\<close>

theorem toggle_twice:
  assumes "get_task_by_id task_id s = Some t"
  shows "\<exists>t1 s1 t2 s2.
           toggle_task_completion task_id now1 s = (Some t1, s1)
         \<and> toggle_task_completion task_id now2 s1 = (Some t2, s2)
         \<and> get_task_by_id task_id s1 = Some t1
         \<and> get_task_by_id task_id s2 = Some t2
         \<and> t_completed t1 = (\<not> t_completed t)
         \<and> t_completed t2 = t_completed t
         \<and> t_updated_at t1 = Some now1
         \<and> t_created_at t1 = t_created_at t
         \<and> (s = run calls empty_db \<and> (\<forall>n \<in> set (map snd calls). n \<le> now1)
              \<longrightarrow> t_created_at t1 \<le> now1)
         \<and> (\<forall>d now0 s0. create_task d now0 s0 = (Some t, s) \<and> now0 \<le> now1
              \<longrightarrow> t_created_at t1 \<le> now1)"
proof -
  from assms have g: "session_get_task s task_id = Some t" by (simp add: get_task_by_id_def)
  then have k: "t_id t = task_id" by (rule session_get_task_id)
  define t1 where "t1 = t\<lparr>t_completed := \<not> t_completed t, t_updated_at := Some now1\<rparr>"
  define t2 where "t2 = t1\<lparr>t_completed := \<not> t_completed t1, t_updated_at := Some now2\<rparr>"
  have k1: "t_id t1 = task_id" using k by (simp add: t1_def)
  have k2: "t_id t2 = task_id" using k1 by (simp add: t2_def)
  have g1: "session_get_task (save_task t1 s) task_id = Some t1"
    using g k1 by (rule session_get_task_save)
  have g2: "session_get_task (save_task t2 (save_task t1 s)) task_id = Some t2"
    using g1 k2 by (rule session_get_task_save)
  have a: "toggle_task_completion task_id now1 s = (Some t1, save_task t1 s)"
    using g by (simp add: toggle_task_completion_def t1_def Let_def)
  have b: "toggle_task_completion task_id now2 (save_task t1 s) = (Some t2, save_task t2 (save_task t1 s))"
    using g1 by (simp add: toggle_task_completion_def t2_def Let_def)
  have c: "t_created_at t1 = t_created_at t" by (simp add: t1_def)
  have reach: "s = run calls empty_db \<and> (\<forall>n \<in> set (map snd calls). n \<le> now1)
                 \<longrightarrow> t_created_at t1 \<le> now1"
  proof
    assume h: "s = run calls empty_db \<and> (\<forall>n \<in> set (map snd calls). n \<le> now1)"
    have "\<forall>r \<in> set (tasks empty_db). t_created_at r \<le> now1" by (simp add: empty_db_def)
    from run_created_bound [OF this, of calls] h
    have "\<forall>r \<in> set (tasks s). t_created_at r \<le> now1" by simp
    moreover from g have "t \<in> set (tasks s)" by (rule session_get_task_mem)
    ultimately show "t_created_at t1 \<le> now1" by (simp add: c)
  qed
  have fresh: "\<forall>d now0 s0. create_task d now0 s0 = (Some t, s) \<and> now0 \<le> now1
                 \<longrightarrow> t_created_at t1 \<le> now1"
  proof (intro allI impI)
    fix d now0 s0
    assume h: "create_task d now0 s0 = (Some t, s) \<and> now0 \<le> now1"
    then have "t_created_at t = now0" using create_task_then_get by blast
    with h show "t_created_at t1 \<le> now1" by (simp add: c)
  qed
  have "t_completed t1 = (\<not> t_completed t)" "t_completed t2 = t_completed t"
    "t_updated_at t1 = Some now1"
    by (simp_all add: t1_def t2_def)
  with a b g1 g2 c reach fresh show ?thesis
    unfolding get_task_by_id_def by blast
qed

theorem toggle_twice_witness:
  "get_task_by_id 1 (run sample_calls empty_db) = Some sample_renamed_task
   \<and> list_all (\<lambda>n. n \<le> 12) (map snd sample_calls)
   \<and> (\<exists>t1 s1 t2 s2.
         toggle_task_completion 1 12 (run sample_calls empty_db) = (Some t1, s1)
       \<and> toggle_task_completion 1 15 s1 = (Some t2, s2)
       \<and> t_completed t1 \<and> \<not> t_completed t2
       \<and> t_updated_at t1 = Some 12 \<and> t_created_at t1 = 10 \<and> t_created_at t1 \<le> 12)
   \<and> create_task \<lparr>tc_title = ''User 1 Task'', tc_description = '''', tc_user_id = 1\<rparr> 20 sample_two_users_db
       = (Some sample_user1_task, sample_two_users_db\<lparr>tasks := [sample_user1_task]\<rparr>)
   \<and> (20::int) \<le> 25
   \<and> get_task_by_id 1 (sample_two_users_db\<lparr>tasks := [sample_user1_task]\<rparr>) = Some sample_user1_task
   \<and> (\<exists>t1 s1.
         toggle_task_completion 1 25 (sample_two_users_db\<lparr>tasks := [sample_user1_task]\<rparr>) = (Some t1, s1)
       \<and> t_completed t1 \<and> t_updated_at t1 = Some 25 \<and> t_created_at t1 \<le> 25)"
proof -
  have r: "run sample_calls empty_db =
             \<lparr>users = [\<lparr>u_id = 1, u_name = ''Test User'', u_email = ''test@example.com'',
                         u_is_active = True, u_created_at = 1\<rparr>],
              tasks = [sample_renamed_task]\<rparr>"
    by (simp add: sample_calls_def empty_db_def create_user_def insert_user_def create_task_def
        insert_task_def update_task_def apply_update_def set_field_def save_task_def
        session_get_user_def session_get_task_def next_id_def sample_renamed_task_def Let_def)
  have g: "get_task_by_id 1 (run sample_calls empty_db) = Some sample_renamed_task"
    unfolding r by (simp add: get_task_by_id_def session_get_task_def sample_renamed_task_def)
  have c: "list_all (\<lambda>n. n \<le> 12) (map snd sample_calls)"
    by (simp add: sample_calls_def)
  then have c': "\<forall>n \<in> set (map snd sample_calls). n \<le> 12"
    by (simp add: list_all_iff)
  from toggle_twice [OF g, of 12 15 sample_calls] c'
  have "\<exists>t1 s1 t2 s2.
         toggle_task_completion 1 12 (run sample_calls empty_db) = (Some t1, s1)
       \<and> toggle_task_completion 1 15 s1 = (Some t2, s2)
       \<and> t_completed t1 \<and> \<not> t_completed t2
       \<and> t_updated_at t1 = Some 12 \<and> t_created_at t1 = 10 \<and> t_created_at t1 \<le> 12"
    by (auto simp: sample_renamed_task_def)
  note first = this
  let ?d = "\<lparr>tc_title = ''User 1 Task'', tc_description = '''', tc_user_id = 1\<rparr>"
  let ?s = "sample_two_users_db\<lparr>tasks := [sample_user1_task]\<rparr>"
  have cr: "create_task ?d 20 sample_two_users_db = (Some sample_user1_task, ?s)"
    by (simp add: create_task_def insert_task_def session_get_user_def sample_two_users_db_def
        sample_default_user_def sample_user1_task_def next_id_def Let_def)
  have le: "(20::int) \<le> 25" by simp
  have g': "get_task_by_id 1 ?s = Some sample_user1_task"
    by (simp add: get_task_by_id_def session_get_task_def sample_user1_task_def)
  from toggle_twice [OF g', of 25 30 "[]"] cr le
  have "\<exists>t1 s1.
         toggle_task_completion 1 25 ?s = (Some t1, s1)
       \<and> t_completed t1 \<and> t_updated_at t1 = Some 25 \<and> t_created_at t1 \<le> 25"
    by (auto simp: sample_user1_task_def)
  with first g c cr le g' show ?thesis by blast
qed

section \<open>Partial update\<close>

text \<open>
  C5. For an existing task, \<open>update_task\<close> with only \<open>title\<close> supplied changes the title,
  leaves \<open>description\<close> and \<open>completed\<close> as they were and makes \<open>updated_at\<close> present.
  In general, for any update value, every field left unset keeps its stored value (and so
  do \<open>id\<close>, \<open>user_id\<close> and \<open>created_at\<close>), and when no field is supplied as
  \<open>None\<close> the call succeeds and every supplied field holds the supplied value.
\<close>

theorem update_task_partial:
  assumes "get_task_by_id task_id s = Some t"
  shows "update_task task_id \<lparr>tu_title = Supplied (Some v), tu_description = Unset, tu_completed = Unset\<rparr> now s
           = (Inr (Some (t\<lparr>t_title := v, t_updated_at := Some now\<rparr>)),
              save_task (t\<lparr>t_title := v, t_updated_at := Some now\<rparr>) s)
       \<and> get_task_by_id task_id (save_task (t\<lparr>t_title := v, t_updated_at := Some now\<rparr>) s)
           = Some (t\<lparr>t_title := v, t_updated_at := Some now\<rparr>)
       \<and> (\<exists>t'. get_task_by_id task_id (snd (update_task task_id d now s)) = Some t'
              \<and> (tu_title d = Unset \<longrightarrow> t_title t' = t_title t)
              \<and> (tu_description d = Unset \<longrightarrow> t_description t' = t_description t)
              \<and> (tu_completed d = Unset \<longrightarrow> t_completed t' = t_completed t)
              \<and> t_id t' = t_id t \<and> t_user_id t' = t_user_id t \<and> t_created_at t' = t_created_at t
              \<and> (tu_title d \<noteq> Supplied None \<and> tu_description d \<noteq> Supplied None
                   \<and> tu_completed d \<noteq> Supplied None \<longrightarrow>
                    fst (update_task task_id d now s) = Inr (Some t')
                  \<and> t_updated_at t' = Some now
                  \<and> (\<forall>x. tu_title d = Supplied (Some x) \<longrightarrow> t_title t' = x)
                  \<and> (\<forall>x. tu_description d = Supplied (Some x) \<longrightarrow> t_description t' = x)
                  \<and> (\<forall>x. tu_completed d = Supplied (Some x) \<longrightarrow> t_completed t' = x)))"
proof (intro conjI)
  from assms have g: "session_get_task s task_id = Some t" by (simp add: get_task_by_id_def)
  then have k: "t_id t = task_id" by (rule session_get_task_id)
  let ?d = "\<lparr>tu_title = Supplied (Some v), tu_description = Unset, tu_completed = Unset\<rparr>"
  have "apply_update ?d t = Inr (t\<lparr>t_title := v\<rparr>)"
    by (simp add: apply_update_def set_field_def)
  from update_task_existing [OF g this, of now]
  show "update_task task_id ?d now s
           = (Inr (Some (t\<lparr>t_title := v, t_updated_at := Some now\<rparr>)),
              save_task (t\<lparr>t_title := v, t_updated_at := Some now\<rparr>) s)"
    by simp
  show "get_task_by_id task_id (save_task (t\<lparr>t_title := v, t_updated_at := Some now\<rparr>) s)
           = Some (t\<lparr>t_title := v, t_updated_at := Some now\<rparr>)"
    unfolding get_task_by_id_def using g by (rule session_get_task_save) (simp add: k)
  show "\<exists>t'. get_task_by_id task_id (snd (update_task task_id d now s)) = Some t'
              \<and> (tu_title d = Unset \<longrightarrow> t_title t' = t_title t)
              \<and> (tu_description d = Unset \<longrightarrow> t_description t' = t_description t)
              \<and> (tu_completed d = Unset \<longrightarrow> t_completed t' = t_completed t)
              \<and> t_id t' = t_id t \<and> t_user_id t' = t_user_id t \<and> t_created_at t' = t_created_at t
              \<and> (tu_title d \<noteq> Supplied None \<and> tu_description d \<noteq> Supplied None
                   \<and> tu_completed d \<noteq> Supplied None \<longrightarrow>
                    fst (update_task task_id d now s) = Inr (Some t')
                  \<and> t_updated_at t' = Some now
                  \<and> (\<forall>x. tu_title d = Supplied (Some x) \<longrightarrow> t_title t' = x)
                  \<and> (\<forall>x. tu_description d = Supplied (Some x) \<longrightarrow> t_description t' = x)
                  \<and> (\<forall>x. tu_completed d = Supplied (Some x) \<longrightarrow> t_completed t' = x))"
  proof -
    from apply_update_cases [of d t] consider
      (ok) t' where "apply_update d t = Inr t'" "t_id t' = t_id t" "t_user_id t' = t_user_id t"
         "t_created_at t' = t_created_at t"
         "Some (t_title t') = set_field (tu_title d) (t_title t)"
         "Some (t_description t') = set_field (tu_description d) (t_description t)"
         "Some (t_completed t') = set_field (tu_completed d) (t_completed t)"
    | (rejected) "apply_update d t = Inl IntegrityError"
         "tu_title d = Supplied None \<or> tu_description d = Supplied None \<or> tu_completed d = Supplied None"
      by blast
    then show ?thesis
    proof cases
      case ok
      let ?t = "t'\<lparr>t_updated_at := Some now\<rparr>"
      have u: "update_task task_id d now s = (Inr (Some ?t), save_task ?t s)"
        using g ok(1) by (rule update_task_existing)
      have "session_get_task (save_task ?t s) task_id = Some ?t"
        using g by (rule session_get_task_save) (simp add: ok(2) k)
      then have "get_task_by_id task_id (snd (update_task task_id d now s)) = Some ?t"
        by (simp add: u get_task_by_id_def)
      moreover have "fst (update_task task_id d now s) = Inr (Some ?t)" by (simp add: u)
      moreover have "tu_title d = Unset \<longrightarrow> t_title ?t = t_title t"
        and "tu_description d = Unset \<longrightarrow> t_description ?t = t_description t"
        and "tu_completed d = Unset \<longrightarrow> t_completed ?t = t_completed t"
        and "\<forall>x. tu_title d = Supplied (Some x) \<longrightarrow> t_title ?t = x"
        and "\<forall>x. tu_description d = Supplied (Some x) \<longrightarrow> t_description ?t = x"
        and "\<forall>x. tu_completed d = Supplied (Some x) \<longrightarrow> t_completed ?t = x"
        using ok(5,6,7) by (auto simp: set_field_def)
      moreover have "t_id ?t = t_id t" "t_user_id ?t = t_user_id t" "t_created_at ?t = t_created_at t"
        "t_updated_at ?t = Some now"
        using ok(2,3,4) by simp_all
      ultimately show ?thesis by blast
    next
      case rejected
      have "update_task task_id d now s = (Inl IntegrityError, s)"
        using g rejected(1) by (rule update_task_rejected)
      then have "get_task_by_id task_id (snd (update_task task_id d now s)) = Some t"
        using assms by simp
      with rejected(2) show ?thesis by auto
    qed
  qed
qed

theorem update_task_partial_witness:
  "get_task_by_id 2 sample_db = Some sample_done_task
   \<and> (\<exists>t'. update_task 2 \<lparr>tu_title = Supplied (Some ''New Title''), tu_description = Unset, tu_completed = Unset\<rparr> 20 sample_db
            = (Inr (Some t'), save_task t' sample_db)
          \<and> get_task_by_id 2 (save_task t' sample_db) = Some t'
          \<and> t_title t' = ''New Title''
          \<and> t_description t' = ''Original Description''
          \<and> t_completed t' = True
          \<and> t_updated_at t' = Some 20)"
proof -
  have a: "get_task_by_id 2 sample_db = Some sample_done_task"
    by (simp add: get_task_by_id_def session_get_task_def sample_db_def sample_task_def sample_done_task_def)
  from update_task_partial [OF a, of "''New Title''" 20] a
  show ?thesis by (simp add: sample_done_task_def)
qed

section \<open>Deletion\<close>

text \<open>
  C6. If a task with the id exists, \<open>delete_task\<close> returns \<open>True\<close> and a following
  \<open>get_task_by_id\<close> returns \<open>None\<close>. If none exists, \<open>delete_task\<close> returns \<open>False\<close>
  and the datastore is unchanged; the function has no failing outcome.
\<close>

theorem delete_task_result:
  "(get_task_by_id task_id s = Some t \<longrightarrow>
      fst (delete_task task_id s) = True
    \<and> get_task_by_id task_id (snd (delete_task task_id s)) = None)
   \<and> (get_task_by_id task_id s = None \<longrightarrow> delete_task task_id s = (False, s))"
proof (intro conjI impI)
  assume "get_task_by_id task_id s = None"
  then show "delete_task task_id s = (False, s)"
    by (simp add: delete_task_def get_task_by_id_def)
next
  assume a: "get_task_by_id task_id s = Some t"
  then have g: "session_get_task s task_id = Some t" by (simp add: get_task_by_id_def)
  then show "fst (delete_task task_id s) = True" by (simp add: delete_task_def)
  from g have "t_id t = task_id" by (rule session_get_task_id)
  with g session_get_task_remove [of t s]
  show "get_task_by_id task_id (snd (delete_task task_id s)) = None"
    by (simp add: delete_task_def get_task_by_id_def)
qed

theorem delete_task_result_witness:
  "get_task_by_id 1 \<lparr>users = [], tasks = [sample_task]\<rparr> = Some sample_task
   \<and> fst (delete_task 1 \<lparr>users = [], tasks = [sample_task]\<rparr>) = True
   \<and> get_task_by_id 1 (snd (delete_task 1 \<lparr>users = [], tasks = [sample_task]\<rparr>)) = None
   \<and> get_task_by_id 999 \<lparr>users = [], tasks = [sample_task]\<rparr> = None
   \<and> delete_task 999 \<lparr>users = [], tasks = [sample_task]\<rparr> = (False, \<lparr>users = [], tasks = [sample_task]\<rparr>)"
proof -
  let ?s = "\<lparr>users = [], tasks = [sample_task]\<rparr>"
  have a: "get_task_by_id 1 ?s = Some sample_task"
    by (simp add: get_task_by_id_def session_get_task_def sample_task_def)
  have b: "get_task_by_id 999 ?s = None"
    by (simp add: get_task_by_id_def session_get_task_def sample_task_def)
  from a b delete_task_result [of 1 ?s sample_task] delete_task_result [of 999 ?s sample_task]
  show ?thesis by simp
qed

section \<open>Duplicate email\<close>

text \<open>
  C7. When a user with the requested email already exists, \<open>create_user\<close> returns
  \<open>None\<close> as a normal result (\<open>Inr\<close>, nothing is raised) and the datastore, hence every
  field of the pre-existing user, is unchanged.
\<close>

theorem create_user_duplicate_email:
  "u \<in> set (users s) \<Longrightarrow> u_email u = uc_email user_data \<Longrightarrow>
   create_user user_data now s = (Inr None, s)"
proof -
  assume "u \<in> set (users s)" and "u_email u = uc_email user_data"
  then have "find (\<lambda>u. u_email u = uc_email user_data) (users s) \<noteq> None"
    by (auto simp: find_None_iff)
  then show ?thesis by (auto simp: create_user_def)
qed

theorem create_user_duplicate_email_witness:
  "sample_default_user \<in> set (users \<lparr>users = [sample_default_user], tasks = []\<rparr>)
   \<and> u_email sample_default_user = uc_email \<lparr>uc_name = ''Jane Doe'', uc_email = ''default@todo.app''\<rparr>
   \<and> create_user \<lparr>uc_name = ''Jane Doe'', uc_email = ''default@todo.app''\<rparr> 20 \<lparr>users = [sample_default_user], tasks = []\<rparr>
       = (Inr None, \<lparr>users = [sample_default_user], tasks = []\<rparr>)"
proof -
  let ?s = "\<lparr>users = [sample_default_user], tasks = []\<rparr>"
  let ?d = "\<lparr>uc_name = ''Jane Doe'', uc_email = ''default@todo.app''\<rparr>"
  have a: "sample_default_user \<in> set (users ?s)" by simp
  have b: "u_email sample_default_user = uc_email ?d" by (simp add: sample_default_user_def)
  from create_user_duplicate_email [OF a b, of 20] a b show ?thesis by simp
qed

section \<open>The default user\<close>

text \<open>
  C8. From any datastore, two calls of \<open>get_or_create_default_user\<close> in sequence both
  return a User, with the same id, and the second call changes nothing. The first call
  leaves the datastore alone when a user with the email \<open>default@todo.app\<close> exists, and
  otherwise appends exactly one user, named \<open>Default User\<close>, with that email.
\<close>

theorem default_user_idempotent:
  "\<exists>u1 s1 u2.
      get_or_create_default_user now1 s = (Inr u1, s1)
    \<and> get_or_create_default_user now2 s1 = (Inr u2, s1)
    \<and> u_id u2 = u_id u1
    \<and> u_email u1 = default_email
    \<and> (get_user_by_email default_email s \<noteq> None \<longrightarrow> s1 = s)
    \<and> (get_user_by_email default_email s = None \<longrightarrow>
          u_name u1 = ''Default User'' \<and> users s1 = users s @ [u1] \<and> tasks s1 = tasks s)"
proof (cases "get_user_by_email default_email s")
  case (Some u)
  then have "u_email u = default_email"
    by (auto simp: get_user_by_email_def find_Some_iff)
  with Some show ?thesis by (simp add: get_or_create_default_user_def)
next
  case None
  then have n: "find (\<lambda>u. u_email u = uc_email \<lparr>uc_name = ''Default User'', uc_email = default_email\<rparr>) (users s) = None"
    by (simp add: get_user_by_email_def)
  define u1 where "u1 = \<lparr>u_id = next_id (map u_id (users s)), u_name = ''Default User'',
                          u_email = default_email, u_is_active = True, u_created_at = now1\<rparr>"
  define s1 where "s1 = s\<lparr>users := users s @ [u1]\<rparr>"
  have c: "create_user \<lparr>uc_name = ''Default User'', uc_email = default_email\<rparr> now1 s = (Inr (Some u1), s1)"
    using create_user_fresh_email [OF n, of now1] by (simp add: u1_def s1_def)
  have a: "get_or_create_default_user now1 s = (Inr u1, s1)"
    using None c by (simp add: get_or_create_default_user_def)
  have "find (\<lambda>u. u_email u = default_email) (users s @ [u1]) = Some u1"
    using None by (intro find_append_new) (simp_all add: get_user_by_email_def u1_def)
  then have "get_user_by_email default_email s1 = Some u1"
    by (simp add: get_user_by_email_def s1_def)
  then have b: "get_or_create_default_user now2 s1 = (Inr u1, s1)"
    by (simp add: get_or_create_default_user_def)
  show ?thesis using a b None by (simp add: u1_def s1_def)
qed

theorem default_user_idempotent_witness:
  "get_user_by_email default_email empty_db = None
   \<and> (\<exists>u1 s1 u2.
        get_or_create_default_user 3 empty_db = (Inr u1, s1)
      \<and> get_or_create_default_user 8 s1 = (Inr u2, s1)
      \<and> u_id u2 = u_id u1
      \<and> u_name u1 = ''Default User''
      \<and> users s1 = [u1])
   \<and> get_user_by_email default_email \<lparr>users = [sample_default_user], tasks = []\<rparr> \<noteq> None
   \<and> (\<exists>u1 u2.
        get_or_create_default_user 3 \<lparr>users = [sample_default_user], tasks = []\<rparr>
          = (Inr u1, \<lparr>users = [sample_default_user], tasks = []\<rparr>)
      \<and> get_or_create_default_user 8 \<lparr>users = [sample_default_user], tasks = []\<rparr>
          = (Inr u2, \<lparr>users = [sample_default_user], tasks = []\<rparr>)
      \<and> u_id u2 = u_id u1)"
proof -
  let ?s = "\<lparr>users = [sample_default_user], tasks = []\<rparr>"
  have a: "get_user_by_email default_email empty_db = None"
    by (simp add: get_user_by_email_def empty_db_def)
  have b: "get_user_by_email default_email ?s \<noteq> None"
    by (simp add: get_user_by_email_def sample_default_user_def default_email_def)
  from default_user_idempotent [of 3 empty_db 8] a
  have c: "\<exists>u1 s1 u2.
        get_or_create_default_user 3 empty_db = (Inr u1, s1)
      \<and> get_or_create_default_user 8 s1 = (Inr u2, s1)
      \<and> u_id u2 = u_id u1
      \<and> u_name u1 = ''Default User''
      \<and> users s1 = [u1]"
    by (auto simp: empty_db_def)
  from default_user_idempotent [of 3 ?s 8] b
  have d: "\<exists>u1 u2.
        get_or_create_default_user 3 ?s = (Inr u1, ?s)
      \<and> get_or_create_default_user 8 ?s = (Inr u2, ?s)
      \<and> u_id u2 = u_id u1"
    by auto
  from a b c d show ?thesis by blast
qed

section \<open>Ownership isolation\<close>

text \<open>
  C9. After any sequence of task creations for any mix of users, every task listed for
  user \<open>a\<close> has \<open>user_id = a\<close>; the listings of two distinct users share no task; and a
  task created under user \<open>a\<close> is, after any further creations, in the listing of
  \<open>a\<close> and not in the listing of another user \<open>b\<close>.
\<close>

theorem ownership_isolation:
  "(\<forall>t \<in> set (get_user_tasks a c (create_tasks reqs s)). t_user_id t = a)
   \<and> (a \<noteq> b \<longrightarrow>
        set (get_user_tasks a c (create_tasks reqs s)) \<inter> set (get_user_tasks b c' (create_tasks reqs s)) = {})
   \<and> (a \<noteq> b \<longrightarrow> tc_user_id d = a \<longrightarrow> create_task d now s0 = (Some t, s) \<longrightarrow>
        t \<in> set (get_user_tasks a None (create_tasks reqs s))
      \<and> t \<notin> set (get_user_tasks b c' (create_tasks reqs s)))"
proof (intro conjI ballI impI)
  fix x assume "x \<in> set (get_user_tasks a c (create_tasks reqs s))"
  then show "t_user_id x = a" by (rule get_user_tasks_owner)
next
  assume "a \<noteq> b"
  then show "set (get_user_tasks a c (create_tasks reqs s)) \<inter> set (get_user_tasks b c' (create_tasks reqs s)) = {}"
    by (auto dest: get_user_tasks_owner)
next
  assume ab: "a \<noteq> b" and d: "tc_user_id d = a" and cr: "create_task d now s0 = (Some t, s)"
  from create_task_returns_row [OF cr] d have m: "t \<in> set (tasks s)" and o: "t_user_id t = a" by simp_all
  from m have "t \<in> set (tasks (create_tasks reqs s))" by (rule create_tasks_keeps_rows)
  with o show "t \<in> set (get_user_tasks a None (create_tasks reqs s))"
    by (simp add: get_user_tasks_set)
  from o ab show "t \<notin> set (get_user_tasks b c' (create_tasks reqs s))"
    by (auto dest: get_user_tasks_owner)
qed

theorem ownership_isolation_witness:
  "(1::int) \<noteq> 2
   \<and> create_task \<lparr>tc_title = ''User 1 Task'', tc_description = '''', tc_user_id = 1\<rparr> 20 sample_two_users_db
       = (Some sample_user1_task, sample_two_users_db\<lparr>tasks := [sample_user1_task]\<rparr>)
   \<and> sample_user1_task \<in> set (get_user_tasks 1 None
         (create_tasks sample_requests (sample_two_users_db\<lparr>tasks := [sample_user1_task]\<rparr>)))
   \<and> sample_user1_task \<notin> set (get_user_tasks 2 None
         (create_tasks sample_requests (sample_two_users_db\<lparr>tasks := [sample_user1_task]\<rparr>)))
   \<and> map t_user_id (get_user_tasks 2 None
         (create_tasks sample_requests (sample_two_users_db\<lparr>tasks := [sample_user1_task]\<rparr>))) = [2, 2]
   \<and> length (get_user_tasks 2 None
         (create_tasks sample_requests (sample_two_users_db\<lparr>tasks := [sample_user1_task]\<rparr>))) = 2
   \<and> length (get_user_tasks 1 None
         (create_tasks sample_requests (sample_two_users_db\<lparr>tasks := [sample_user1_task]\<rparr>))) = 2"
proof -
  let ?d = "\<lparr>tc_title = ''User 1 Task'', tc_description = '''', tc_user_id = 1\<rparr>"
  let ?s = "sample_two_users_db\<lparr>tasks := [sample_user1_task]\<rparr>"
  have cr: "create_task ?d 20 sample_two_users_db = (Some sample_user1_task, ?s)"
    by (simp add: create_task_def insert_task_def session_get_user_def sample_two_users_db_def
        sample_default_user_def sample_user1_task_def next_id_def Let_def)
  have len: "length (get_user_tasks 2 None (create_tasks sample_requests ?s)) = 2"
       "length (get_user_tasks 1 None (create_tasks sample_requests ?s)) = 2"
    by (simp_all add: create_task_def insert_task_def session_get_user_def sample_two_users_db_def
        sample_default_user_def sample_user2_def sample_requests_def get_user_tasks_def
        sample_user1_task_def order_by_desc_length Let_def)
  have own: "map t_user_id (get_user_tasks 2 None (create_tasks sample_requests ?s)) = [2, 2]"
    by (simp add: create_task_def insert_task_def session_get_user_def sample_two_users_db_def
        sample_default_user_def sample_user2_def sample_requests_def get_user_tasks_def
        sample_user1_task_def order_by_desc_created_at_def Let_def)
  have ne: "(1::int) \<noteq> 2" by simp
  from ownership_isolation [of 2 None sample_requests ?s 1 None ?d 20 sample_two_users_db sample_user1_task]
       ownership_isolation [of 1 None sample_requests ?s 2 None ?d 20 sample_two_users_db sample_user1_task]
       cr ne len own
  show ?thesis by simp
qed

section \<open>Update with nothing set, and an explicit completed=False\<close>

text \<open>
  C10. For an existing task, \<open>update_task\<close> with no field set succeeds, returns the
  stored task with only \<open>updated_at\<close> replaced by the time of the call, and persists it.
  Supplying \<open>completed=False\<close> is applied: the returned and stored task has
  \<open>completed = False\<close> whatever it was, unlike the call that leaves the field unset.
\<close>

theorem update_task_nothing_set:
  assumes "get_task_by_id task_id s = Some t"
  shows "update_task task_id \<lparr>tu_title = Unset, tu_description = Unset, tu_completed = Unset\<rparr> now s
           = (Inr (Some (t\<lparr>t_updated_at := Some now\<rparr>)), save_task (t\<lparr>t_updated_at := Some now\<rparr>) s)
       \<and> get_task_by_id task_id (save_task (t\<lparr>t_updated_at := Some now\<rparr>) s)
           = Some (t\<lparr>t_updated_at := Some now\<rparr>)
       \<and> update_task task_id \<lparr>tu_title = Unset, tu_description = Unset, tu_completed = Supplied (Some False)\<rparr> now s
           = (Inr (Some (t\<lparr>t_completed := False, t_updated_at := Some now\<rparr>)),
              save_task (t\<lparr>t_completed := False, t_updated_at := Some now\<rparr>) s)
       \<and> get_task_by_id task_id (save_task (t\<lparr>t_completed := False, t_updated_at := Some now\<rparr>) s)
           = Some (t\<lparr>t_completed := False, t_updated_at := Some now\<rparr>)"
proof (intro conjI)
  from assms have g: "session_get_task s task_id = Some t" by (simp add: get_task_by_id_def)
  then have k: "t_id t = task_id" by (rule session_get_task_id)
  have "apply_update \<lparr>tu_title = Unset, tu_description = Unset, tu_completed = Unset\<rparr> t = Inr t"
    by (simp add: apply_update_def set_field_def)
  from update_task_existing [OF g this, of now]
  show "update_task task_id \<lparr>tu_title = Unset, tu_description = Unset, tu_completed = Unset\<rparr> now s
           = (Inr (Some (t\<lparr>t_updated_at := Some now\<rparr>)), save_task (t\<lparr>t_updated_at := Some now\<rparr>) s)" .
  have "apply_update \<lparr>tu_title = Unset, tu_description = Unset, tu_completed = Supplied (Some False)\<rparr> t
          = Inr (t\<lparr>t_completed := False\<rparr>)"
    by (simp add: apply_update_def set_field_def)
  from update_task_existing [OF g this, of now]
  show "update_task task_id \<lparr>tu_title = Unset, tu_description = Unset, tu_completed = Supplied (Some False)\<rparr> now s
           = (Inr (Some (t\<lparr>t_completed := False, t_updated_at := Some now\<rparr>)),
              save_task (t\<lparr>t_completed := False, t_updated_at := Some now\<rparr>) s)" by simp
  show "get_task_by_id task_id (save_task (t\<lparr>t_updated_at := Some now\<rparr>) s)
           = Some (t\<lparr>t_updated_at := Some now\<rparr>)"
    unfolding get_task_by_id_def using g by (rule session_get_task_save) (simp add: k)
  show "get_task_by_id task_id (save_task (t\<lparr>t_completed := False, t_updated_at := Some now\<rparr>) s)
           = Some (t\<lparr>t_completed := False, t_updated_at := Some now\<rparr>)"
    unfolding get_task_by_id_def using g by (rule session_get_task_save) (simp add: k)
qed

theorem update_task_nothing_set_witness:
  "get_task_by_id 2 sample_db = Some sample_done_task
   \<and> (\<exists>t'. update_task 2 \<lparr>tu_title = Unset, tu_description = Unset, tu_completed = Unset\<rparr> 20 sample_db
            = (Inr (Some t'), save_task t' sample_db)
          \<and> t_title t' = ''Completed Task'' \<and> t_completed t' = True \<and> t_updated_at t' = Some 20)
   \<and> (\<exists>t'. update_task 2 \<lparr>tu_title = Unset, tu_description = Unset, tu_completed = Supplied (Some False)\<rparr> 20 sample_db
            = (Inr (Some t'), save_task t' sample_db)
          \<and> t_title t' = ''Completed Task'' \<and> t_completed t' = False \<and> t_updated_at t' = Some 20)"
proof -
  have a: "get_task_by_id 2 sample_db = Some sample_done_task"
    by (simp add: get_task_by_id_def session_get_task_def sample_db_def sample_task_def sample_done_task_def)
  from update_task_nothing_set [OF a, of 20] a
  show ?thesis by (simp add: sample_done_task_def)
qed

end
